theory Spec2Isabelle
  imports Complex_Main
begin

section \<open>The simulation core of the tunnel game\<close>

text \<open>
  The embedding follows the revision of the game script that scales every movement by
  \<^verbatim>\<open>deltaTime / 16.67\<close> (the one with the title screen, the fighter model and the
  sound effects; the other two copies of the script are earlier revisions): the
  module-level variables \<^verbatim>\<open>gameState\<close>, \<^verbatim>\<open>cameraPos\<close> and \<^verbatim>\<open>obstacles\<close> and the
  functions \<^verbatim>\<open>getDifficultyMultiplier\<close>, \<^verbatim>\<open>updateGame\<close>, \<^verbatim>\<open>startGame\<close> and
  \<^verbatim>\<open>restartGame\<close>.

  JavaScript numbers are modelled as exact numbers: \<open>real\<close> for the quantities that
  are scaled by the frame time, \<open>int\<close> for \<open>life\<close> and \<open>score\<close>, which only ever hold
  whole numbers (\<open>life\<close> starts at 100 and loses 10 or 20, \<open>score\<close> is a \<open>Math.floor\<close>).
  Rounding, infinities and NaN of IEEE doubles are outside the model.
\<close>

subsection \<open>State\<close>

text \<open>The object literal bound to \<^verbatim>\<open>gameState\<close>.\<close>

record gameState =
  life :: int
  score :: int
  speed :: real
  playerY :: real
  playerVelocity :: real
  gameRunning :: bool
  showTitle :: bool
  time :: real

text \<open>
  An element of the \<^verbatim>\<open>obstacles\<close> array. The source's fields \<^verbatim>\<open>x\<close>, \<^verbatim>\<open>y\<close>, \<^verbatim>\<open>z\<close>
  are named \<open>obx\<close>, \<open>oby\<close>, \<open>obz\<close> here, so that one-letter variables stay usable.
\<close>

record obstacle =
  obx :: real
  oby :: real
  obz :: real
  rotationX :: real
  rotationY :: real
  rotationZ :: real
  rotationSpeedX :: real
  rotationSpeedY :: real
  rotationSpeedZ :: real

text \<open>
  All the mutable variables of the module that the simulation reads or writes: the fields
  of \<^verbatim>\<open>gameState\<close>, the three slots of the array \<^verbatim>\<open>cameraPos\<close> (only the indices
  0, 1 and 2 are ever read or written, so each slot is a field) and the array
  \<^verbatim>\<open>obstacles\<close> in index order.
\<close>

record world = gameState +
  cameraPos0 :: real
  cameraPos1 :: real
  cameraPos2 :: real
  obstacles :: "obstacle list"

text \<open>
  The calls into the presentation layer (DOM, audio, local storage) that a function makes,
  in the order it makes them, with the state values they read: \<^verbatim>\<open>showTitleScreen()\<close>,
  \<^verbatim>\<open>showDamageFlash()\<close>, \<^verbatim>\<open>playCollisionSound(type)\<close>, \<^verbatim>\<open>playMelody(type)\<close>,
  \<^verbatim>\<open>showGameOver()\<close> with the score that it displays and compares with the stored high
  score (its own call of \<^verbatim>\<open>playMelody('gameOver')\<close> is part of that event), and
  \<^verbatim>\<open>updateUI()\<close> with the life and the score that it displays. They do not write the
  simulation state.
\<close>

datatype sound = Wall | Obstacle

datatype melody = Start | GameOver

datatype event =
    ShowTitleScreen
  | ShowDamageFlash
  | PlayCollisionSound sound
  | PlayMelody melody
  | ShowGameOver int
  | UpdateUI int int

text \<open>
  The three phases of the game are encoded by the two flags; the order of the tests is
  that of the guards at the head of \<^verbatim>\<open>updateGame\<close>.
\<close>

datatype phase = TITLE | RUNNING | GAME_OVER

definition phase_of :: "'a gameState_scheme \<Rightarrow> phase" where
  "phase_of w = (if showTitle w then TITLE else if gameRunning w then RUNNING else GAME_OVER)"

text \<open>The initial values of the module-level variables.\<close>

definition initial :: world where
  "initial = \<lparr> life = 100, score = 0, speed = 0.02, playerY = 0, playerVelocity = 0,
     gameRunning = False, showTitle = True, time = 0,
     cameraPos0 = 0, cameraPos1 = 0, cameraPos2 = 0, obstacles = [] \<rparr>"

subsection \<open>Array operations\<close>

text \<open>
  \<^verbatim>\<open>Array.prototype.splice(start, deleteCount)\<close> for a non-negative \<open>start\<close>: the
  elements from \<open>start\<close> up to \<open>start + deleteCount\<close> are removed and the later ones move
  down; a \<open>start\<close> at or beyond the length removes nothing.
\<close>

definition splice :: "nat \<Rightarrow> nat \<Rightarrow> 'a list \<Rightarrow> 'a list" where
  "splice start deleteCount xs = take start xs @ drop (start + deleteCount) xs"

subsection \<open>The tick\<close>

definition getDifficultyMultiplier :: "world \<Rightarrow> real" where
  "getDifficultyMultiplier w = (let progressFactor = real_of_int (score w) / 1000 in 1 + progressFactor)"

text \<open>
  \<^verbatim>\<open>// Player movement\<close>: \<open>keys\<close> gives the truthiness of an entry of the \<^verbatim>\<open>keys\<close>
  object (an entry that was never written is \<^verbatim>\<open>undefined\<close>, which is falsy).
\<close>

definition playerMovement :: "real \<Rightarrow> (string \<Rightarrow> bool) \<Rightarrow> world \<Rightarrow> world" where
  "playerMovement deltaTime keys w =
    (let w = (if keys ''Space'' \<or> keys ''Touch'' \<or> keys ''MouseClick''
              then w\<lparr>playerVelocity := playerVelocity w + 0.002 * (deltaTime / 16.67)\<rparr>
              else w\<lparr>playerVelocity := playerVelocity w - 0.002 * (deltaTime / 16.67)\<rparr>);
         w = w\<lparr>playerVelocity := max (- 0.06) (min 0.06 (playerVelocity w))\<rparr>
     in w\<lparr>playerY := playerY w + playerVelocity w * (deltaTime / 16.67)\<rparr>)"

text \<open>\<^verbatim>\<open>// Wall collision\<close>\<close>

definition wallCollision :: "world \<Rightarrow> world \<times> event list" where
  "wallCollision w =
    (if playerY w > 1.8 \<or> playerY w < - 1.8 then
       let w = w\<lparr>life := max 0 (life w - 10)\<rparr>;
           w = (if playerY w > 0 then w\<lparr>playerVelocity := - 0.06\<rparr>
                else w\<lparr>playerVelocity := 0.06\<rparr>);
           w = w\<lparr>playerY := max (- 1.8) (min 1.8 (playerY w))\<rparr>
       in (w, [ShowDamageFlash, PlayCollisionSound Wall])
     else (w, []))"

text \<open>\<^verbatim>\<open>// Update camera position\<close>\<close>

definition updateCameraPosition :: "real \<Rightarrow> world \<Rightarrow> world" where
  "updateCameraPosition deltaTime w =
    (let w = w\<lparr>cameraPos1 := playerY w\<rparr>
     in w\<lparr>cameraPos2 := cameraPos2 w + speed w * (deltaTime / 16.67)\<rparr>)"

text \<open>\<^verbatim>\<open>// Update score\<close>\<close>

definition updateScore :: "world \<Rightarrow> world" where
  "updateScore w = w\<lparr>score := \<lfloor>cameraPos2 w * 10\<rfloor>\<rparr>"

text \<open>\<^verbatim>\<open>// Increase speed over time\<close>\<close>

definition increaseSpeed :: "world \<Rightarrow> world" where
  "increaseSpeed w = w\<lparr>speed := 0.02 + time w * 0.00001\<rparr>"

text \<open>
  \<^verbatim>\<open>// Spawn obstacles with increasing frequency based on progress\<close>: \<open>random k\<close> is
  the value that the \<open>k\<close>-th call of \<^verbatim>\<open>Math.random()\<close> in this tick returns (counting
  from 0); a tick makes one call, or nine when it spawns.
\<close>

definition spawnObstacles :: "(nat \<Rightarrow> real) \<Rightarrow> world \<Rightarrow> world" where
  "spawnObstacles random w =
    (let baseSpawnRate = 0.01;
         difficultyMultiplier = getDifficultyMultiplier w;
         currentSpawnRate = baseSpawnRate * difficultyMultiplier
     in if random 0 < currentSpawnRate then
          w\<lparr>obstacles := obstacles w @
            [\<lparr> obx = (random 1 - 0.5) * 3,
               oby = (random 2 - 0.5) * 3,
               obz = cameraPos2 w + 40,
               rotationX = random 3 * pi * 2,
               rotationY = random 4 * pi * 2,
               rotationZ = random 5 * pi * 2,
               rotationSpeedX = (random 6 - 0.5) * 0.004 * 16,
               rotationSpeedY = (random 7 - 0.5) * 0.004 * 16,
               rotationSpeedZ = (random 8 - 0.5) * 0.004 * 16 \<rparr>]\<rparr>
        else w)"

text \<open>
  The callback of \<^verbatim>\<open>obstacles.forEach\<close>. The variable \<open>obstacle\<close> is the object that was
  at \<open>index\<close> when the callback was entered; its rotation is advanced in place, and it is
  still the object that is tested after a \<^verbatim>\<open>splice\<close> has taken it out of the array.
\<close>

definition callback :: "real \<Rightarrow> nat \<Rightarrow> world \<times> event list \<Rightarrow> world \<times> event list" where
  "callback deltaTime index s =
    (let (w, ev) = s;
         obstacle = obstacles w ! index;
         obstacle = obstacle\<lparr>rotationX := rotationX obstacle + rotationSpeedX obstacle * (deltaTime / 16.67)\<rparr>;
         obstacle = obstacle\<lparr>rotationY := rotationY obstacle + rotationSpeedY obstacle * (deltaTime / 16.67)\<rparr>;
         obstacle = obstacle\<lparr>rotationZ := rotationZ obstacle + rotationSpeedZ obstacle * (deltaTime / 16.67)\<rparr>;
         w = w\<lparr>obstacles := (obstacles w)[index := obstacle]\<rparr>;
         dx = obx obstacle - 0;
         dy = oby obstacle - playerY w;
         dz = obz obstacle - (cameraPos2 w + 0.5);
         distance = sqrt (dx * dx + dy * dy + dz * dz);
         (w, ev) = (if distance < 0.5
                    then (w\<lparr>life := max 0 (life w - 20),
                            obstacles := splice index 1 (obstacles w)\<rparr>,
                          ev @ [ShowDamageFlash, PlayCollisionSound Obstacle])
                    else (w, ev));
         w = (if obz obstacle < cameraPos2 w - 5
              then w\<lparr>obstacles := splice index 1 (obstacles w)\<rparr>
              else w)
     in (w, ev))"

text \<open>
  \<^verbatim>\<open>// Update obstacles\<close>: \<^verbatim>\<open>Array.prototype.forEach\<close> reads the length once, before the
  first call, then visits the indices below it in ascending order and calls the callback
  for every index that the array still has at that moment. The callback shortens the
  array, so an index can have left the array by the time it is reached.
\<close>

definition visit :: "real \<Rightarrow> nat \<Rightarrow> world \<times> event list \<Rightarrow> world \<times> event list" where
  "visit deltaTime index s =
    (if index < length (obstacles (fst s)) then callback deltaTime index s else s)"

definition updateObstacles :: "real \<Rightarrow> world \<times> event list \<Rightarrow> world \<times> event list" where
  "updateObstacles deltaTime s =
    fold (visit deltaTime) [0 ..< length (obstacles (fst s))] s"

text \<open>\<^verbatim>\<open>// Check game over\<close>: \<^verbatim>\<open>showGameOver\<close> reads the score when it is called.\<close>

definition checkGameOver :: "world \<times> event list \<Rightarrow> world \<times> event list" where
  "checkGameOver s =
    (let (w, ev) = s
     in if life w \<le> 0 then (w\<lparr>gameRunning := False\<rparr>, ev @ [ShowGameOver (score w)])
        else (w, ev))"

definition updateGame :: "real \<Rightarrow> (string \<Rightarrow> bool) \<Rightarrow> (nat \<Rightarrow> real) \<Rightarrow> world \<Rightarrow> world \<times> event list" where
  "updateGame deltaTime keys random w =
    (if showTitle w then (w, [ShowTitleScreen])
     else if \<not> gameRunning w then (w, [])
     else
       let w = w\<lparr>time := time w + deltaTime\<rparr>;
           w = playerMovement deltaTime keys w;
           (w, ev) = wallCollision w;
           w = updateCameraPosition deltaTime w;
           w = updateScore w;
           w = increaseSpeed w;
           w = spawnObstacles random w;
           (w, ev) = updateObstacles deltaTime (w, ev);
           (w, ev) = checkGameOver (w, ev)
       in (w, ev @ [UpdateUI (life w) (score w)]))"

subsection \<open>Starting and restarting\<close>

definition startGame :: "world \<Rightarrow> world \<times> event list" where
  "startGame w =
    (let w = w\<lparr>showTitle := False\<rparr>;
         w = w\<lparr>gameRunning := True\<rparr>
     in (w, [PlayMelody Start, UpdateUI (life w) (score w)]))"

text \<open>
  The handlers of \<^verbatim>\<open>keydown\<close> (for the space bar), \<^verbatim>\<open>mousedown\<close> and \<^verbatim>\<open>touchstart\<close>
  start the game only from the title screen.
\<close>

definition onInput :: "world \<Rightarrow> world \<times> event list" where
  "onInput w = (if showTitle w then startGame w else (w, []))"

definition restartGame :: "world \<Rightarrow> world \<times> event list" where
  "restartGame w =
    (\<lparr> life = 100, score = 0, speed = 0.02, playerY = 0, playerVelocity = 0,
       gameRunning = False, showTitle = True, time = 0,
       cameraPos0 = 0, cameraPos1 = 0, cameraPos2 = 0, obstacles = [] \<rparr>,
     [ShowTitleScreen])"

subsection \<open>Runs of the game\<close>

text \<open>
  The frame driver passes the difference of two animation-frame time stamps, which is
  never negative, and \<^verbatim>\<open>Math.random()\<close> returns a number in \<open>[0, 1)\<close>.
\<close>

definition unit_draws :: "(nat \<Rightarrow> real) \<Rightarrow> bool" where
  "unit_draws random = (\<forall>k. 0 \<le> random k \<and> random k < 1)"

inductive reachable :: "world \<Rightarrow> bool" where
  r_init: "reachable initial"
| r_tick: "reachable w \<Longrightarrow> 0 \<le> deltaTime \<Longrightarrow> unit_draws random \<Longrightarrow>
     reachable (fst (updateGame deltaTime keys random w))"
| r_input: "reachable w \<Longrightarrow> reachable (fst (onInput w))"
| r_restart: "reachable w \<Longrightarrow> reachable (fst (restartGame w))"

text \<open>
  A run is a list of the things that happen to the game: an animation frame with its frame
  time, the state of the keys and the random draws of that frame; a press of the space
  bar, the mouse or a finger; a restart.
\<close>

datatype action = Tick real "string \<Rightarrow> bool" "nat \<Rightarrow> real" | Input | Restart

fun step :: "action \<Rightarrow> world \<Rightarrow> world" where
  "step (Tick deltaTime keys random) w = fst (updateGame deltaTime keys random w)"
| "step Input w = fst (onInput w)"
| "step Restart w = fst (restartGame w)"

fun admissible :: "action \<Rightarrow> bool" where
  "admissible (Tick deltaTime keys random) = (0 \<le> deltaTime \<and> unit_draws random)"
| "admissible Input = True"
| "admissible Restart = True"

definition run :: "action list \<Rightarrow> world \<Rightarrow> world" where
  "run as w = fold step as w"

subsection \<open>Derived notions\<close>

text \<open>The condition of the \<^verbatim>\<open>if\<close> under \<^verbatim>\<open>// Player movement\<close>: some input is held.\<close>

definition thrust :: "(string \<Rightarrow> bool) \<Rightarrow> bool" where
  "thrust keys = (keys ''Space'' \<or> keys ''Touch'' \<or> keys ''MouseClick'')"

text \<open>One loss of life: \<^verbatim>\<open>Math.max(0, gameState.life - d)\<close>.\<close>

definition damage :: "int \<Rightarrow> int \<Rightarrow> int" where
  "damage d l = max 0 (l - d)"

text \<open>The state of a running tick after the wall collision has been resolved.\<close>

definition afterWall :: "real \<Rightarrow> (string \<Rightarrow> bool) \<Rightarrow> world \<Rightarrow> world" where
  "afterWall dt keys w = fst (wallCollision (playerMovement dt keys w))"


definition hits :: "world \<Rightarrow> obstacle \<Rightarrow> bool" where
  "hits w ob =
     (sqrt ((obx ob - 0) * (obx ob - 0) + (oby ob - playerY w) * (oby ob - playerY w) +
            (obz ob - (cameraPos2 w + 0.5)) * (obz ob - (cameraPos2 w + 0.5))) < 0.5)"

definition behind :: "world \<Rightarrow> obstacle \<Rightarrow> bool" where
  "behind w ob = (obz ob < cameraPos2 w - 5)"

text \<open>The state and the events of a running tick when the obstacle loop is entered.\<close>

definition beforeObstacles :: "real \<Rightarrow> (string \<Rightarrow> bool) \<Rightarrow> (nat \<Rightarrow> real) \<Rightarrow> world \<Rightarrow> world \<times> event list" where
  "beforeObstacles dt keys rnd w =
     (let s = wallCollision (playerMovement dt keys (w\<lparr>time := time w + dt\<rparr>))
      in (spawnObstacles rnd (increaseSpeed (updateScore (updateCameraPosition dt (fst s)))), snd s))"

subsection \<open>Concrete inputs\<close>

text \<open>
  Two states of the keys (nothing held; the space bar held) and a sequence of random
  draws under which no obstacle is spawned while the score is below 98000.
\<close>

definition noKeys :: "string \<Rightarrow> bool" where
  "noKeys k = False"

definition holdSpace :: "string \<Rightarrow> bool" where
  "holdSpace k = (k = ''Space'')"

definition noSpawn :: "nat \<Rightarrow> real" where
  "noSpawn k = 0.99"

subsection \<open>Invariants\<close>

text \<open>
  The invariants of the reachable states: life stays between 0 and 100 and is 0 exactly in
  phase GAME_OVER; the player stays between the walls; the score is the floor of ten times
  the distance travelled; the velocity stays between the two speed limits.
\<close>

definition life_inv :: "world \<Rightarrow> bool" where
  "life_inv w = (0 \<le> life w \<and> life w \<le> 100 \<and> (life w = 0 \<longleftrightarrow> phase_of w = GAME_OVER))"

definition offset_inv :: "world \<Rightarrow> bool" where
  "offset_inv w = (- 1.8 \<le> playerY w \<and> playerY w \<le> 1.8)"

definition score_inv :: "world \<Rightarrow> bool" where
  "score_inv w = (score w = \<lfloor>cameraPos2 w * 10\<rfloor>)"

definition velocity_inv :: "world \<Rightarrow> bool" where
  "velocity_inv w = (- 0.06 \<le> playerVelocity w \<and> playerVelocity w \<le> 0.06)"

subsection \<open>Concrete runs\<close>

text \<open>
  Random draws under which an obstacle is spawned on the axis of the tunnel (\<open>x = 0\<close>), at
  \<open>y = -1.5\<close>, with all rotation angles 0 and all rotation speeds 0.016.
\<close>

definition spawnDraws :: "nat \<Rightarrow> real" where
  "spawnDraws k = (if k = 1 then 0.5 else if 6 \<le> k \<and> k \<le> 8 then 0.75 else 0)"

text \<open>
  A run of three events: the game is started; a frame of 416.75 ms with the space bar
  held; a frame of 250.05 ms with nothing held. It ends with the player at offset 1.55,
  rising at velocity 0.02.
\<close>

definition climbing :: world where
  "climbing = run [Input, Tick 416.75 holdSpace noSpawn, Tick 250.05 noKeys noSpawn] initial"

text \<open>
  A run that spawns two obstacles: the game is started, a frame of 16.67 ms spawns the
  first obstacle, a frame of 5001 ms spawns the second one, 6.05 units further down the
  tunnel.
\<close>

definition crowded :: world where
  "crowded = run [Input, Tick 16.67 noKeys spawnDraws, Tick 5001 noKeys spawnDraws] initial"

text \<open>
  A run of wall collisions: the game is started and left alone for nine frames of 5001 ms
  each. In every one of them the player falls onto the lower wall. It ends with 10 points
  of life left.
\<close>

definition coast :: action where
  "coast = Tick 5001 noKeys noSpawn"

definition lastLife :: world where
  "lastLife = run [Input, coast, coast, coast, coast, coast, coast, coast, coast, coast] initial"


text \<open>The game right after it has been started from the title screen.\<close>

definition started :: world where
  "started = run [Input] initial"

text \<open>The two obstacles of the state \<open>crowded\<close>, in spawn order.\<close>

definition obstacleA :: obstacle where
  "obstacleA = \<lparr> obx = 0, oby = - 1.5, obz = 40.02,
     rotationX = 4.816, rotationY = 4.816, rotationZ = 4.816,
     rotationSpeedX = 0.016, rotationSpeedY = 0.016, rotationSpeedZ = 0.016 \<rparr>"

definition obstacleB :: obstacle where
  "obstacleB = \<lparr> obx = 0, oby = - 1.5, obz = 46.07001,
     rotationX = 4.8, rotationY = 4.8, rotationZ = 4.8,
     rotationSpeedX = 0.016, rotationSpeedY = 0.016, rotationSpeedZ = 0.016 \<rparr>"

text \<open>The state \<open>climbing\<close> after one more frame, of 83.35 ms, with the space bar held.\<close>

definition climbing2 :: world where
  "climbing2 = run [Tick 83.35 holdSpace noSpawn] climbing"

section \<open>Properties of the steps\<close>

lemma sqrt_less_half: "sqrt a < 0.5 \<longleftrightarrow> a < 0.25"
proof -
  have "sqrt (0.25::real) = 0.5"
    by (rule real_sqrt_unique) (simp_all add: power2_eq_square)
  then show ?thesis
    by (metis real_sqrt_less_iff)
qed

lemma callback_frame:
  "fst (callback dt i s) =
     (fst s)\<lparr>life := life (fst (callback dt i s)), obstacles := obstacles (fst (callback dt i s))\<rparr>"
  by (cases s) (simp add: callback_def Let_def)

lemma callback_life:
  "life (fst (callback dt i s)) = life (fst s) \<or> life (fst (callback dt i s)) = damage 20 (life (fst s))"
  by (cases s) (simp add: callback_def Let_def damage_def)

lemma visit_frame:
  "fst (visit dt i s) =
     (fst s)\<lparr>life := life (fst (visit dt i s)), obstacles := obstacles (fst (visit dt i s))\<rparr>"
  using callback_frame [of dt i s] by (simp add: visit_def)

lemma visit_life:
  "life (fst (visit dt i s)) = life (fst s) \<or> life (fst (visit dt i s)) = damage 20 (life (fst s))"
  using callback_life [of dt i s] by (simp add: visit_def)

lemma fold_visit_frame:
  "fst (fold (visit dt) ks s) =
     (fst s)\<lparr>life := life (fst (fold (visit dt) ks s)), obstacles := obstacles (fst (fold (visit dt) ks s))\<rparr>"
proof (induction ks arbitrary: s)
  case Nil
  show ?case by simp
next
  case (Cons k ks)
  have "fst (fold (visit dt) (k # ks) s) = fst (fold (visit dt) ks (visit dt k s))"
    by simp
  also have "\<dots> = (fst (visit dt k s))\<lparr>life := life (fst (fold (visit dt) ks (visit dt k s))),
      obstacles := obstacles (fst (fold (visit dt) ks (visit dt k s)))\<rparr>"
    by (rule Cons.IH)
  also have "\<dots> = (fst s)\<lparr>life := life (fst (fold (visit dt) ks (visit dt k s))),
      obstacles := obstacles (fst (fold (visit dt) ks (visit dt k s)))\<rparr>"
    by (subst visit_frame) simp
  finally show ?case by simp
qed

lemma fold_visit_life:
  "\<exists>n. n \<le> length ks \<and> life (fst (fold (visit dt) ks s)) = (damage 20 ^^ n) (life (fst s))"
proof (induction ks arbitrary: s)
  case Nil
  show ?case by simp
next
  case (Cons k ks)
  obtain n where n: "n \<le> length ks"
      "life (fst (fold (visit dt) ks (visit dt k s))) = (damage 20 ^^ n) (life (fst (visit dt k s)))"
    using Cons.IH by blast
  from visit_life [of dt k s] show ?case
  proof
    assume "life (fst (visit dt k s)) = life (fst s)"
    with n have "n \<le> length (k # ks) \<and> life (fst (fold (visit dt) (k # ks) s)) = (damage 20 ^^ n) (life (fst s))"
      by simp
    then show ?thesis by blast
  next
    assume "life (fst (visit dt k s)) = damage 20 (life (fst s))"
    with n have "Suc n \<le> length (k # ks) \<and> life (fst (fold (visit dt) (k # ks) s)) = (damage 20 ^^ Suc n) (life (fst s))"
      by (simp add: funpow_swap1)
    then show ?thesis by blast
  qed
qed

lemma damage_funpow_bounds:
  "0 \<le> l \<Longrightarrow> 0 \<le> (damage d ^^ n) l"
  by (induction n) (simp_all add: damage_def)

lemma damage_funpow_le:
  "0 \<le> d \<Longrightarrow> 0 \<le> l \<Longrightarrow> (damage d ^^ n) l \<le> l"
proof (induction n)
  case 0
  show ?case by simp
next
  case (Suc n)
  then show ?case by (simp add: damage_def)
qed

lemma playerMovement_eq:
  "playerMovement dt keys w =
     w\<lparr>playerVelocity := max (- 0.06) (min 0.06
           (playerVelocity w + (if thrust keys then 0.002 else - 0.002) * (dt / 16.67))),
       playerY := playerY w + max (- 0.06) (min 0.06
           (playerVelocity w + (if thrust keys then 0.002 else - 0.002) * (dt / 16.67))) * (dt / 16.67)\<rparr>"
  unfolding playerMovement_def Let_def thrust_def
  by (cases "keys ''Space'' \<or> keys ''Touch'' \<or> keys ''MouseClick''") simp_all

lemma wallCollision_hit:
  assumes "1.8 < \<bar>playerY w\<bar>"
  shows "wallCollision w =
     (w\<lparr>life := max 0 (life w - 10), playerVelocity := - sgn (playerY w) * 0.06,
        playerY := max (- 1.8) (min 1.8 (playerY w))\<rparr>,
      [ShowDamageFlash, PlayCollisionSound Wall])"
proof (cases "0 < playerY w")
  case True
  with assms show ?thesis
    unfolding wallCollision_def Let_def by simp
next
  case False
  with assms have "playerY w < - 1.8" by simp
  with False show ?thesis
    unfolding wallCollision_def Let_def by simp
qed

lemma wallCollision_miss:
  assumes "\<bar>playerY w\<bar> \<le> 1.8"
  shows "wallCollision w = (w, [])"
proof -
  from assms have "\<not> (playerY w > 1.8 \<or> playerY w < - 1.8)" by auto
  then show ?thesis
    unfolding wallCollision_def by simp
qed

lemma wallCollision_frame:
  "fst (wallCollision w) =
     w\<lparr>life := life (fst (wallCollision w)), playerVelocity := playerVelocity (fst (wallCollision w)),
       playerY := playerY (fst (wallCollision w))\<rparr>"
proof (cases "1.8 < \<bar>playerY w\<bar>")
  case True
  then show ?thesis by (simp add: wallCollision_hit)
next
  case False
  then show ?thesis by (simp add: wallCollision_miss)
qed

lemma updateObstacles_frame:
  "fst (updateObstacles dt s) =
     (fst s)\<lparr>life := life (fst (updateObstacles dt s)), obstacles := obstacles (fst (updateObstacles dt s))\<rparr>"
  unfolding updateObstacles_def by (rule fold_visit_frame)

lemma updateObstacles_life:
  "\<exists>n. n \<le> length (obstacles (fst s)) \<and> life (fst (updateObstacles dt s)) = (damage 20 ^^ n) (life (fst s))"
  unfolding updateObstacles_def using fold_visit_life [of "[0 ..< length (obstacles (fst s))]" dt s] by simp

lemma spawnObstacles_frame:
  "spawnObstacles rnd w = w\<lparr>obstacles := obstacles (spawnObstacles rnd w)\<rparr>"
proof (cases "rnd 0 < 0.01 * getDifficultyMultiplier w")
  case True
  then show ?thesis unfolding spawnObstacles_def Let_def by simp
next
  case False
  then show ?thesis unfolding spawnObstacles_def Let_def by simp
qed

lemma updateGame_running:
  assumes "phase_of w = RUNNING"
  shows "updateGame dt keys rnd w =
    (let s = checkGameOver (updateObstacles dt (beforeObstacles dt keys rnd w))
     in (fst s, snd s @ [UpdateUI (life (fst s)) (score (fst s))]))"
proof -
  from assms have "\<not> showTitle w" "gameRunning w"
    by (simp_all add: phase_of_def split: if_splits)
  then show ?thesis
    by (simp only: updateGame_def beforeObstacles_def Let_def case_prod_beta if_False if_True
        not_True_eq_False fst_conv snd_conv prod.collapse)
qed

lemma updateGame_not_running:
  assumes "phase_of w \<noteq> RUNNING"
  shows "updateGame dt keys rnd w = (w, if showTitle w then [ShowTitleScreen] else [])"
proof (cases "showTitle w")
  case True
  then show ?thesis by (simp only: updateGame_def if_True)
next
  case False
  with assms have "\<not> gameRunning w" by (simp add: phase_of_def split: if_splits)
  with False show ?thesis by (simp only: updateGame_def if_False if_True not_False_eq_True)
qed

lemma checkGameOver_fst:
  "fst (checkGameOver s) = (fst s)\<lparr>gameRunning := gameRunning (fst s) \<and> 0 < life (fst s)\<rparr>"
proof (cases "life (fst s) \<le> 0")
  case True
  then show ?thesis unfolding checkGameOver_def Let_def case_prod_beta by simp
next
  case False
  then show ?thesis unfolding checkGameOver_def Let_def case_prod_beta by simp
qed

lemma checkGameOver_snd:
  "snd (checkGameOver s) = snd s @ (if life (fst s) \<le> 0 then [ShowGameOver (score (fst s))] else [])"
  unfolding checkGameOver_def Let_def case_prod_beta by simp

lemma wallCollision_time:
  "wallCollision (w\<lparr>time := t\<rparr>) = ((fst (wallCollision w))\<lparr>time := t\<rparr>, snd (wallCollision w))"
proof (cases "1.8 < \<bar>playerY w\<bar>")
  case True
  then have "1.8 < \<bar>playerY (w\<lparr>time := t\<rparr>)\<bar>" by simp
  with True show ?thesis
    by (simp only: wallCollision_hit) simp
next
  case False
  then have a: "\<bar>playerY w\<bar> \<le> 1.8" by simp
  then have "\<bar>playerY (w\<lparr>time := t\<rparr>)\<bar> \<le> 1.8" by simp
  with a show ?thesis
    by (simp only: wallCollision_miss) simp
qed

lemma playerMovement_time:
  "playerMovement dt keys (w\<lparr>time := t\<rparr>) = (playerMovement dt keys w)\<lparr>time := t\<rparr>"
  by (simp add: playerMovement_eq)

lemma afterWall_frame:
  "afterWall dt keys w =
     w\<lparr>life := life (afterWall dt keys w), playerVelocity := playerVelocity (afterWall dt keys w),
       playerY := playerY (afterWall dt keys w)\<rparr>"
  unfolding afterWall_def
  by (subst wallCollision_frame) (simp add: playerMovement_eq)

lemma beforeObstacles_fst:
  "fst (beforeObstacles dt keys rnd w) =
    (afterWall dt keys w)\<lparr>time := time w + dt, cameraPos1 := playerY (afterWall dt keys w),
       cameraPos2 := cameraPos2 w + speed w * (dt / 16.67),
       score := \<lfloor>(cameraPos2 w + speed w * (dt / 16.67)) * 10\<rfloor>,
       speed := 0.02 + (time w + dt) * 0.00001,
       obstacles := obstacles (fst (beforeObstacles dt keys rnd w))\<rparr>"
proof -
  let ?a = "afterWall dt keys w"
  have sel: "cameraPos2 ?a = cameraPos2 w" "speed ?a = speed w"
    by (subst afterWall_frame, simp)+
  have "fst (beforeObstacles dt keys rnd w) =
      spawnObstacles rnd (increaseSpeed (updateScore (updateCameraPosition dt (?a\<lparr>time := time w + dt\<rparr>))))"
    by (simp only: beforeObstacles_def Let_def fst_conv playerMovement_time wallCollision_time afterWall_def)
  also have "\<dots> = (increaseSpeed (updateScore (updateCameraPosition dt (?a\<lparr>time := time w + dt\<rparr>))))
      \<lparr>obstacles := obstacles (fst (beforeObstacles dt keys rnd w))\<rparr>"
    by (subst spawnObstacles_frame) (simp only: calculation)
  finally show ?thesis
    by (simp add: increaseSpeed_def updateScore_def updateCameraPosition_def Let_def sel)
qed

lemma beforeObstacles_snd:
  "snd (beforeObstacles dt keys rnd w) = snd (wallCollision (playerMovement dt keys w))"
  by (simp only: beforeObstacles_def Let_def snd_conv playerMovement_time wallCollision_time)

lemma tick_running:
  assumes "phase_of w = RUNNING"
  shows "fst (updateGame dt keys rnd w) =
    (afterWall dt keys w)\<lparr>time := time w + dt, cameraPos1 := playerY (afterWall dt keys w),
       cameraPos2 := cameraPos2 w + speed w * (dt / 16.67),
       score := \<lfloor>(cameraPos2 w + speed w * (dt / 16.67)) * 10\<rfloor>,
       speed := 0.02 + (time w + dt) * 0.00001,
       obstacles := obstacles (fst (updateGame dt keys rnd w)),
       life := life (fst (updateGame dt keys rnd w)),
       gameRunning := 0 < life (fst (updateGame dt keys rnd w))\<rparr>"
proof -
  let ?b = "beforeObstacles dt keys rnd w"
  let ?u = "updateObstacles dt ?b"
  from assms have run: "gameRunning w"
    by (simp add: phase_of_def split: if_splits)
  have g: "gameRunning (afterWall dt keys w)"
    by (subst afterWall_frame) (simp add: run)
  have 1: "fst (updateGame dt keys rnd w) = (fst ?u)\<lparr>gameRunning := gameRunning (fst ?u) \<and> 0 < life (fst ?u)\<rparr>"
    by (simp only: updateGame_running [OF assms] Let_def fst_conv checkGameOver_fst)
  have 2: "fst ?u = (fst ?b)\<lparr>life := life (fst ?u), obstacles := obstacles (fst ?u)\<rparr>"
    by (rule updateObstacles_frame)
  have 3: "gameRunning (fst ?u)"
    by (subst 2, subst beforeObstacles_fst) (simp add: g)
  have 4: "life (fst (updateGame dt keys rnd w)) = life (fst ?u)"
      "obstacles (fst (updateGame dt keys rnd w)) = obstacles (fst ?u)"
    by (simp_all add: 1)
  show ?thesis
    by (simp only: 4) (subst 1, subst 2, subst beforeObstacles_fst, simp add: 3)
qed

lemma unit_draws_noSpawn: "unit_draws noSpawn"
  by (simp add: unit_draws_def noSpawn_def)

lemma reachable_step: "reachable w \<Longrightarrow> admissible a \<Longrightarrow> reachable (step a w)"
  by (cases a) (auto intro: reachable.intros)

lemma reachable_run: "reachable w \<Longrightarrow> list_all admissible as \<Longrightarrow> reachable (run as w)"
  unfolding run_def by (induction as arbitrary: w) (auto intro: reachable_step)

lemma snd_callback: "\<exists>es. snd (callback dt i s) = snd s @ es"
  unfolding callback_def Let_def case_prod_beta by simp

lemma snd_visit: "\<exists>es. snd (visit dt i s) = snd s @ es"
  using snd_callback [of dt i s] by (simp add: visit_def)

lemma snd_fold_visit: "\<exists>es. snd (fold (visit dt) ks s) = snd s @ es"
proof (induction ks arbitrary: s)
  case Nil
  show ?case by simp
next
  case (Cons k ks)
  obtain es where "snd (visit dt k s) = snd s @ es"
    using snd_visit by blast
  moreover obtain es' where "snd (fold (visit dt) ks (visit dt k s)) = snd (visit dt k s) @ es'"
    using Cons.IH by blast
  ultimately show ?case by simp
qed

lemma snd_updateObstacles: "\<exists>es. snd (updateObstacles dt s) = snd s @ es"
  unfolding updateObstacles_def by (rule snd_fold_visit)

lemma afterWall_hit:
  assumes "1.8 < \<bar>playerY (playerMovement dt keys w)\<bar>"
  shows "afterWall dt keys w =
     (playerMovement dt keys w)\<lparr>life := max 0 (life w - 10),
        playerVelocity := - sgn (playerY (playerMovement dt keys w)) * 0.06,
        playerY := max (- 1.8) (min 1.8 (playerY (playerMovement dt keys w)))\<rparr>"
proof -
  have "life (playerMovement dt keys w) = life w"
    by (simp add: playerMovement_eq)
  then show ?thesis
    by (simp add: afterWall_def wallCollision_hit [OF assms])
qed

lemma afterWall_miss:
  assumes "\<bar>playerY (playerMovement dt keys w)\<bar> \<le> 1.8"
  shows "afterWall dt keys w = playerMovement dt keys w"
  by (simp add: afterWall_def wallCollision_miss [OF assms])

lemma life_afterWall:
  "life (afterWall dt keys w) = life w \<or> life (afterWall dt keys w) = damage 10 (life w)"
proof (cases "1.8 < \<bar>playerY (playerMovement dt keys w)\<bar>")
  case True
  then show ?thesis by (simp add: afterWall_hit damage_def)
next
  case False
  then have "life (afterWall dt keys w) = life (playerMovement dt keys w)"
    by (simp add: afterWall_miss)
  then show ?thesis by (simp add: playerMovement_eq)
qed

lemma playerY_afterWall:
  "- 1.8 \<le> playerY (afterWall dt keys w) \<and> playerY (afterWall dt keys w) \<le> 1.8"
proof (cases "1.8 < \<bar>playerY (playerMovement dt keys w)\<bar>")
  case True
  then show ?thesis by (simp add: afterWall_hit)
next
  case False
  then show ?thesis by (simp add: afterWall_miss) linarith
qed

lemma tick_life:
  assumes "phase_of w = RUNNING"
  shows "\<exists>n. life (fst (updateGame dt keys rnd w)) = (damage 20 ^^ n) (life (afterWall dt keys w))"
proof -
  let ?b = "beforeObstacles dt keys rnd w"
  have "life (fst (updateGame dt keys rnd w)) = life (fst (updateObstacles dt ?b))"
    by (simp only: updateGame_running [OF assms] Let_def fst_conv checkGameOver_fst) simp
  moreover obtain n where "life (fst (updateObstacles dt ?b)) = (damage 20 ^^ n) (life (fst ?b))"
    using updateObstacles_life by blast
  moreover have "life (fst ?b) = life (afterWall dt keys w)"
    by (subst beforeObstacles_fst) simp
  ultimately show ?thesis by auto
qed

lemma tick_events:
  assumes "phase_of w = RUNNING"
  shows "\<exists>es. snd (updateGame dt keys rnd w) =
     snd (wallCollision (playerMovement dt keys w)) @ es @
     (if life (fst (updateGame dt keys rnd w)) \<le> 0 then [ShowGameOver (score (fst (updateGame dt keys rnd w)))] else []) @
     [UpdateUI (life (fst (updateGame dt keys rnd w))) (score (fst (updateGame dt keys rnd w)))]"
proof -
  let ?b = "beforeObstacles dt keys rnd w"
  let ?u = "updateObstacles dt ?b"
  obtain es where es: "snd ?u = snd (wallCollision (playerMovement dt keys w)) @ es"
    using snd_updateObstacles [of dt ?b] by (auto simp: beforeObstacles_snd)
  have f: "fst (updateGame dt keys rnd w) = fst (checkGameOver ?u)"
    by (simp only: updateGame_running [OF assms] Let_def fst_conv)
  have l: "life (fst (checkGameOver ?u)) = life (fst ?u)" "score (fst (checkGameOver ?u)) = score (fst ?u)"
    by (simp_all add: checkGameOver_fst)
  have "snd (updateGame dt keys rnd w) =
      snd (checkGameOver ?u) @ [UpdateUI (life (fst (checkGameOver ?u))) (score (fst (checkGameOver ?u)))]"
    by (simp only: updateGame_running [OF assms] Let_def snd_conv)
  then show ?thesis
    by (simp add: f l checkGameOver_snd es)
qed

lemma afterWall_flags:
  "showTitle (afterWall dt keys w) = showTitle w" "gameRunning (afterWall dt keys w) = gameRunning w"
  by (subst afterWall_frame, simp)+

lemma tick_fields:
  assumes "phase_of w = RUNNING"
  shows "playerY (fst (updateGame dt keys rnd w)) = playerY (afterWall dt keys w)"
    and "playerVelocity (fst (updateGame dt keys rnd w)) = playerVelocity (afterWall dt keys w)"
    and "time (fst (updateGame dt keys rnd w)) = time w + dt"
    and "cameraPos1 (fst (updateGame dt keys rnd w)) = playerY (afterWall dt keys w)"
    and "cameraPos2 (fst (updateGame dt keys rnd w)) = cameraPos2 w + speed w * (dt / 16.67)"
    and "score (fst (updateGame dt keys rnd w)) = \<lfloor>(cameraPos2 w + speed w * (dt / 16.67)) * 10\<rfloor>"
    and "speed (fst (updateGame dt keys rnd w)) = 0.02 + (time w + dt) * 0.00001"
    and "showTitle (fst (updateGame dt keys rnd w)) = False"
    and "gameRunning (fst (updateGame dt keys rnd w)) = (0 < life (fst (updateGame dt keys rnd w)))"
proof -
  from assms have "\<not> showTitle w"
    by (simp add: phase_of_def split: if_splits)
  then have "\<not> showTitle (afterWall dt keys w)"
    by (simp add: afterWall_flags)
  then show "showTitle (fst (updateGame dt keys rnd w)) = False"
    by (subst tick_running [OF assms]) simp
qed (subst tick_running [OF assms], simp)+

lemma tick_life_bounds:
  assumes "phase_of w = RUNNING" and "0 \<le> life w"
  shows "0 \<le> life (fst (updateGame dt keys rnd w)) \<and> life (fst (updateGame dt keys rnd w)) \<le> life w"
proof -
  have a: "0 \<le> life (afterWall dt keys w) \<and> life (afterWall dt keys w) \<le> life w"
    using life_afterWall [of dt keys w] assms(2) by (auto simp: damage_def)
  obtain n where "life (fst (updateGame dt keys rnd w)) = (damage 20 ^^ n) (life (afterWall dt keys w))"
    using tick_life [OF assms(1)] by blast
  with a damage_funpow_bounds [where l = "life (afterWall dt keys w)" and d = 20 and n = n]
    damage_funpow_le [where l = "life (afterWall dt keys w)" and d = 20 and n = n]
  show ?thesis by simp
qed

lemma life_inv_tick:
  assumes "life_inv w"
  shows "life_inv (fst (updateGame dt keys rnd w))"
proof (cases "phase_of w = RUNNING")
  case True
  let ?w' = "fst (updateGame dt keys rnd w)"
  from assms have "0 \<le> life w" "life w \<le> 100"
    by (simp_all add: life_inv_def)
  with tick_life_bounds [OF True, of dt keys rnd] have b: "0 \<le> life ?w'" "life ?w' \<le> 100"
    by simp_all
  have "phase_of ?w' = (if 0 < life ?w' then RUNNING else GAME_OVER)"
    by (simp add: phase_of_def tick_fields(8,9) [OF True])
  with b show ?thesis
    by (simp add: life_inv_def)
next
  case False
  then have "fst (updateGame dt keys rnd w) = w"
    by (simp add: updateGame_not_running)
  with assms show ?thesis by simp
qed

lemma life_inv_input: "life_inv w \<Longrightarrow> life_inv (fst (onInput w))"
  by (cases "showTitle w") (auto simp: life_inv_def onInput_def startGame_def Let_def phase_of_def)

lemma life_inv_reachable: "reachable w \<Longrightarrow> life_inv w"
proof (induction rule: reachable.induct)
  case r_init
  show ?case by (simp add: life_inv_def initial_def phase_of_def)
next
  case (r_tick w deltaTime random keys)
  then show ?case by (simp add: life_inv_tick)
next
  case (r_input w)
  then show ?case by (simp add: life_inv_input)
next
  case (r_restart w)
  show ?case by (simp add: life_inv_def restartGame_def phase_of_def)
qed

lemma offset_inv_tick:
  assumes "phase_of w = RUNNING \<or> offset_inv w"
  shows "offset_inv (fst (updateGame dt keys rnd w))"
proof (cases "phase_of w = RUNNING")
  case True
  then show ?thesis
    using playerY_afterWall [of dt keys w] by (simp add: offset_inv_def tick_fields(1))
next
  case False
  with assms show ?thesis
    by (simp add: updateGame_not_running)
qed

lemma offset_inv_reachable: "reachable w \<Longrightarrow> offset_inv w"
proof (induction rule: reachable.induct)
  case r_init
  show ?case by (simp add: offset_inv_def initial_def)
next
  case (r_tick w deltaTime random keys)
  then show ?case by (simp add: offset_inv_tick)
next
  case (r_input w)
  then show ?case
    by (cases "showTitle w") (simp_all add: offset_inv_def onInput_def startGame_def Let_def)
next
  case (r_restart w)
  show ?case by (simp add: offset_inv_def restartGame_def)
qed

lemma score_inv_tick:
  assumes "phase_of w = RUNNING \<or> score_inv w"
  shows "score_inv (fst (updateGame dt keys rnd w))"
proof (cases "phase_of w = RUNNING")
  case True
  then show ?thesis
    by (simp add: score_inv_def tick_fields(5,6))
next
  case False
  with assms show ?thesis
    by (simp add: updateGame_not_running)
qed

lemma score_inv_reachable: "reachable w \<Longrightarrow> score_inv w"
proof (induction rule: reachable.induct)
  case r_init
  show ?case by (simp add: score_inv_def initial_def)
next
  case (r_tick w deltaTime random keys)
  then show ?case by (simp add: score_inv_tick)
next
  case (r_input w)
  then show ?case
    by (cases "showTitle w") (simp_all add: score_inv_def onInput_def startGame_def Let_def)
next
  case (r_restart w)
  show ?case by (simp add: score_inv_def restartGame_def)
qed

lemma clamp_bounds:
  fixes x :: real
  assumes "lo \<le> hi"
  shows "lo \<le> max lo (min hi x) \<and> max lo (min hi x) \<le> hi"
  using assms by auto

lemma velocity_playerMovement: "velocity_inv (playerMovement dt keys w)"
proof -
  have "playerVelocity (playerMovement dt keys w) = max (- 0.06) (min 0.06
      (playerVelocity w + (if thrust keys then 0.002 else - 0.002) * (dt / 16.67)))"
    by (subst playerMovement_eq) simp
  moreover have "(- 0.06 :: real) \<le> 0.06" by simp
  ultimately show ?thesis
    unfolding velocity_inv_def using clamp_bounds by presburger
qed

lemma velocity_afterWall: "velocity_inv (afterWall dt keys w)"
proof (cases "1.8 < \<bar>playerY (playerMovement dt keys w)\<bar>")
  case True
  then show ?thesis
    by (simp add: afterWall_hit velocity_inv_def sgn_real_def)
next
  case False
  then show ?thesis
    by (simp add: afterWall_miss velocity_playerMovement)
qed

lemma velocity_inv_tick:
  assumes "phase_of w = RUNNING \<or> velocity_inv w"
  shows "velocity_inv (fst (updateGame dt keys rnd w))"
proof (cases "phase_of w = RUNNING")
  case True
  then show ?thesis
    using velocity_afterWall [of dt keys w] by (simp add: velocity_inv_def tick_fields(2))
next
  case False
  with assms show ?thesis
    by (simp add: updateGame_not_running)
qed

lemma velocity_inv_reachable: "reachable w \<Longrightarrow> velocity_inv w"
proof (induction rule: reachable.induct)
  case r_init
  show ?case by (simp add: velocity_inv_def initial_def)
next
  case (r_tick w deltaTime random keys)
  then show ?case by (simp add: velocity_inv_tick)
next
  case (r_input w)
  then show ?case
    by (cases "showTitle w") (simp_all add: velocity_inv_def onInput_def startGame_def Let_def)
next
  case (r_restart w)
  show ?case by (simp add: velocity_inv_def restartGame_def)
qed

lemmas eval_defs = updateGame_def playerMovement_def wallCollision_def updateCameraPosition_def
  updateScore_def increaseSpeed_def spawnObstacles_def getDifficultyMultiplier_def
  updateObstacles_def visit_def callback_def splice_def checkGameOver_def
  onInput_def startGame_def restartGame_def initial_def noSpawn_def noKeys_def holdSpace_def
  spawnDraws_def Let_def run_def

lemma sqrt_twice_less_one: "sqrt a * 2 < 1 \<longleftrightarrow> a * 4 < 1"
  using sqrt_less_half [of a] by simp

lemma unit_draws_spawnDraws: "unit_draws spawnDraws"
  by (simp add: unit_draws_def spawnDraws_def)

lemma climbing_eq:
  "climbing = \<lparr> life = 100, score = 8, speed = 0.026668, playerY = 1.55, playerVelocity = 0.02,
     gameRunning = True, showTitle = False, time = 666.8,
     cameraPos0 = 0, cameraPos1 = 1.55, cameraPos2 = 0.8625125, obstacles = [] \<rparr>"
  unfolding climbing_def by (simp add: eval_defs)

lemma reachable_climbing: "reachable climbing"
  unfolding climbing_def
  by (rule reachable_run [OF r_init]) (simp add: unit_draws_noSpawn)

lemma crowded_eq:
  "crowded = \<lparr> life = 90, score = 60, speed = 0.0701767, playerY = - 1.8, playerVelocity = 0.06,
     gameRunning = True, showTitle = False, time = 5017.67,
     cameraPos0 = 0, cameraPos1 = - 1.8, cameraPos2 = 6.07001,
     obstacles =
       [\<lparr> obx = 0, oby = - 1.5, obz = 40.02, rotationX = 4.816, rotationY = 4.816, rotationZ = 4.816,
           rotationSpeedX = 0.016, rotationSpeedY = 0.016, rotationSpeedZ = 0.016 \<rparr>,
        \<lparr> obx = 0, oby = - 1.5, obz = 46.07001, rotationX = 4.8, rotationY = 4.8, rotationZ = 4.8,
           rotationSpeedX = 0.016, rotationSpeedY = 0.016, rotationSpeedZ = 0.016 \<rparr>] \<rparr>"
  unfolding crowded_def by (simp add: eval_defs sqrt_twice_less_one)

lemma reachable_crowded: "reachable crowded"
  unfolding crowded_def
  by (rule reachable_run [OF r_init]) (simp add: unit_draws_spawnDraws)

lemma crowded_tick:
  "updateGame 9385.21 noKeys noSpawn crowded =
    (\<lparr> life = 80, score = 455, speed = 0.1640288, playerY = - 1.8, playerVelocity = 0.06,
       gameRunning = True, showTitle = False, time = 14402.88,
       cameraPos0 = 0, cameraPos1 = - 1.8, cameraPos2 = 45.5794921,
       obstacles =
         [\<lparr> obx = 0, oby = - 1.5, obz = 46.07001, rotationX = 4.8, rotationY = 4.8, rotationZ = 4.8,
            rotationSpeedX = 0.016, rotationSpeedY = 0.016, rotationSpeedZ = 0.016 \<rparr>] \<rparr>,
     [ShowDamageFlash, PlayCollisionSound Wall, UpdateUI 80 455])"
  unfolding crowded_eq by (simp add: eval_defs sqrt_twice_less_one)

lemma phase_climbing: "phase_of climbing = RUNNING"
  by (simp add: climbing_eq phase_of_def)

lemma climbing_move:
  "playerMovement 166.7 holdSpace climbing = climbing\<lparr>playerVelocity := 0.04, playerY := 1.95\<rparr>"
  by (simp add: playerMovement_eq thrust_def holdSpace_def climbing_eq)

lemma climbing_tick:
  "updateGame 166.7 holdSpace noSpawn climbing =
    (\<lparr> life = 90, score = 11, speed = 0.028335, playerY = 1.8, playerVelocity = - 0.06,
       gameRunning = True, showTitle = False, time = 833.5,
       cameraPos0 = 0, cameraPos1 = 1.8, cameraPos2 = 1.1291925, obstacles = [] \<rparr>,
     [ShowDamageFlash, PlayCollisionSound Wall, UpdateUI 90 11])"
  unfolding climbing_eq by (simp add: eval_defs)

lemma beforeObstacles_length:
  "length (obstacles (fst (beforeObstacles dt keys rnd w))) \<le> length (obstacles w) + 1"
proof -
  have s: "length (obstacles (spawnObstacles rnd v)) \<le> length (obstacles v) + 1" for v
    by (cases "rnd 0 < 0.01 * getDifficultyMultiplier v") (simp_all add: spawnObstacles_def Let_def)
  have "obstacles (increaseSpeed (updateScore (updateCameraPosition dt v))) = obstacles v" for v
    by (simp add: increaseSpeed_def updateScore_def updateCameraPosition_def Let_def)
  moreover have "obstacles (fst (wallCollision (playerMovement dt keys (w\<lparr>time := time w + dt\<rparr>)))) = obstacles w"
    by (subst wallCollision_frame) (simp add: playerMovement_eq)
  ultimately show ?thesis
    unfolding beforeObstacles_def Let_def fst_conv
    using s [of "increaseSpeed (updateScore (updateCameraPosition dt
      (fst (wallCollision (playerMovement dt keys (w\<lparr>time := time w + dt\<rparr>))))))"]
    by simp
qed



lemma lastLife_eq:
  "lastLife = \<lparr> life = 10, score = 5941, speed = 0.47009, playerY = - 1.8, playerVelocity = 0.06,
     gameRunning = True, showTitle = False, time = 45009,
     cameraPos0 = 0, cameraPos1 = - 1.8, cameraPos2 = 594.108, obstacles = [] \<rparr>"
  unfolding lastLife_def coast_def by (simp add: eval_defs)

lemma reachable_lastLife: "reachable lastLife"
  unfolding lastLife_def coast_def
  by (rule reachable_run [OF r_init]) (simp add: unit_draws_noSpawn)

lemma phase_lastLife: "phase_of lastLife = RUNNING"
  by (simp add: lastLife_eq phase_of_def)

lemma lastLife_tick:
  "updateGame 5001 noKeys noSpawn lastLife =
    (\<lparr> life = 0, score = 7351, speed = 0.5201, playerY = - 1.8, playerVelocity = 0.06,
       gameRunning = False, showTitle = False, time = 50010,
       cameraPos0 = 0, cameraPos1 = - 1.8, cameraPos2 = 735.135, obstacles = [] \<rparr>,
     [ShowDamageFlash, PlayCollisionSound Wall, ShowGameOver 7351, UpdateUI 0 7351])"
  unfolding lastLife_eq by (simp add: eval_defs)

lemma thrust_holdSpace: "thrust holdSpace"
  by (simp add: thrust_def holdSpace_def)

lemma started_eq: "started = initial\<lparr>showTitle := False, gameRunning := True\<rparr>"
  unfolding started_def by (simp add: eval_defs)

lemma reachable_started: "reachable started"
  unfolding started_def by (rule reachable_run [OF r_init]) simp

lemma started_tick:
  "updateGame 16.67 holdSpace noSpawn started =
    (\<lparr> life = 100, score = 0, speed = 0.0201667, playerY = 0.002, playerVelocity = 0.002,
       gameRunning = True, showTitle = False, time = 16.67,
       cameraPos0 = 0, cameraPos1 = 0.002, cameraPos2 = 0.02, obstacles = [] \<rparr>,
     [UpdateUI 100 0])"
  unfolding started_eq by (simp add: eval_defs)

lemma climbing2_eq:
  "climbing2 = \<lparr> life = 100, score = 9, speed = 0.0275015, playerY = 1.7, playerVelocity = 0.03,
     gameRunning = True, showTitle = False, time = 750.15,
     cameraPos0 = 0, cameraPos1 = 1.7, cameraPos2 = 0.9958525, obstacles = [] \<rparr>"
  unfolding climbing2_def run_def fold_simps step.simps climbing_eq by (simp add: eval_defs)

lemma reachable_climbing2: "reachable climbing2"
  unfolding climbing2_def
  by (rule reachable_run [OF reachable_climbing]) (simp add: unit_draws_noSpawn)

lemma climbing2_tick:
  "updateGame 83.35 holdSpace noSpawn climbing2 =
    (\<lparr> life = 90, score = 11, speed = 0.028335, playerY = 1.8, playerVelocity = - 0.06,
       gameRunning = True, showTitle = False, time = 833.5,
       cameraPos0 = 0, cameraPos1 = 1.8, cameraPos2 = 1.13336, obstacles = [] \<rparr>,
     [ShowDamageFlash, PlayCollisionSound Wall, UpdateUI 90 11])"
  unfolding climbing2_eq by (simp add: eval_defs)

lemma phase_started: "phase_of started = RUNNING"
  by (simp add: started_eq phase_of_def initial_def)

lemma started_move:
  "playerMovement 16.67 holdSpace started = started\<lparr>playerVelocity := 0.002, playerY := 0.002\<rparr>"
  by (simp add: playerMovement_eq thrust_def holdSpace_def started_eq initial_def)

lemma crowded_obstacles: "obstacles crowded = [obstacleA, obstacleB]"
  by (simp add: crowded_eq obstacleA_def obstacleB_def)



lemma hits_life [simp]: "hits (w\<lparr>life := l\<rparr>) ob = hits w ob"
  by (simp add: hits_def)

lemma behind_life [simp]: "behind (w\<lparr>life := l\<rparr>) ob = behind w ob"
  by (simp add: behind_def)

































section \<open>The claims\<close>

text \<open>
  C1: in every RUNNING tick in which the integrated player offset (the offset after
  \<^verbatim>\<open>// Player movement\<close>) exceeds 1.8 in absolute value, the wall collision step takes
  10 from the life and floors it at 0, sets the velocity to \<open>- sgn offset * 0.06\<close>
  whatever the incoming speed was, clamps the offset into \<open>[-1.8, 1.8]\<close> and calls the
  damage flash and the wall sound. At the end of the tick the velocity and the offset
  still have these values, and the life is what the wall collision left, less 20 for every
  obstacle that was hit, floored at 0.
\<close>

theorem C1_wall_collision:
  assumes "phase_of w = RUNNING"
    and "1.8 < \<bar>playerY (playerMovement dt keys w)\<bar>"
  shows "wallCollision (playerMovement dt keys w) =
      ((playerMovement dt keys w)\<lparr>life := max 0 (life w - 10),
         playerVelocity := - sgn (playerY (playerMovement dt keys w)) * 0.06,
         playerY := max (- 1.8) (min 1.8 (playerY (playerMovement dt keys w)))\<rparr>,
       [ShowDamageFlash, PlayCollisionSound Wall]) \<and>
     playerVelocity (fst (updateGame dt keys rnd w)) = - sgn (playerY (playerMovement dt keys w)) * 0.06 \<and>
     playerY (fst (updateGame dt keys rnd w)) = max (- 1.8) (min 1.8 (playerY (playerMovement dt keys w))) \<and>
     - 1.8 \<le> playerY (fst (updateGame dt keys rnd w)) \<and>
     playerY (fst (updateGame dt keys rnd w)) \<le> 1.8 \<and>
     (\<exists>n. life (fst (updateGame dt keys rnd w)) = (damage 20 ^^ n) (max 0 (life w - 10))) \<and>
     life (fst (updateGame dt keys rnd w)) \<le> max 0 (life w - 10) \<and>
     (\<exists>es. snd (updateGame dt keys rnd w) = [ShowDamageFlash, PlayCollisionSound Wall] @ es)"
proof -
  let ?m = "playerMovement dt keys w"
  let ?w' = "fst (updateGame dt keys rnd w)"
  have lm: "life ?m = life w"
    by (simp add: playerMovement_eq)
  have wc: "wallCollision ?m =
      (?m\<lparr>life := max 0 (life w - 10), playerVelocity := - sgn (playerY ?m) * 0.06,
         playerY := max (- 1.8) (min 1.8 (playerY ?m))\<rparr>,
       [ShowDamageFlash, PlayCollisionSound Wall])"
    using wallCollision_hit [OF assms(2)] by (simp add: lm)
  have a: "afterWall dt keys w =
      ?m\<lparr>life := max 0 (life w - 10), playerVelocity := - sgn (playerY ?m) * 0.06,
         playerY := max (- 1.8) (min 1.8 (playerY ?m))\<rparr>"
    by (simp add: afterWall_def wc)
  have v: "playerVelocity ?w' = - sgn (playerY ?m) * 0.06"
    by (simp add: tick_fields(2) [OF assms(1)] a)
  have y: "playerY ?w' = max (- 1.8) (min 1.8 (playerY ?m))"
    by (simp add: tick_fields(1) [OF assms(1)] a)
  have yb: "- 1.8 \<le> playerY ?w' \<and> playerY ?w' \<le> 1.8"
    using playerY_afterWall [of dt keys w] by (simp add: tick_fields(1) [OF assms(1)])
  obtain n where n: "life ?w' = (damage 20 ^^ n) (max 0 (life w - 10))"
    using tick_life [OF assms(1), of dt keys rnd] by (auto simp: a)
  have "(damage 20 ^^ n) (max 0 (life w - 10)) \<le> max 0 (life w - 10)"
    by (rule damage_funpow_le) simp_all
  with n have l: "life ?w' \<le> max 0 (life w - 10)"
    by simp
  obtain es where "snd (updateGame dt keys rnd w) = [ShowDamageFlash, PlayCollisionSound Wall] @ es"
    using tick_events [OF assms(1), of dt keys rnd] by (auto simp: wc)
  with wc v y yb n l show ?thesis
    by blast
qed

theorem C1_wall_collision_witness:
  "phase_of climbing = RUNNING \<and>
   1.8 < \<bar>playerY (playerMovement 166.7 holdSpace climbing)\<bar> \<and>
   playerY (playerMovement 166.7 holdSpace climbing) = 1.95 \<and>
   life climbing = 100 \<and>
   fst (wallCollision (playerMovement 166.7 holdSpace climbing)) =
     climbing\<lparr>life := 90, playerVelocity := - 0.06, playerY := 1.8\<rparr> \<and>
   playerVelocity (fst (updateGame 166.7 holdSpace noSpawn climbing)) = - 0.06 \<and>
   playerY (fst (updateGame 166.7 holdSpace noSpawn climbing)) = 1.8 \<and>
   life (fst (updateGame 166.7 holdSpace noSpawn climbing)) \<le> 90"
proof -
  have h: "1.8 < \<bar>playerY (playerMovement 166.7 holdSpace climbing)\<bar>"
    by (simp add: climbing_move)
  have l: "life climbing = 100"
    by (simp add: climbing_eq)
  from C1_wall_collision [OF phase_climbing h, of noSpawn] h phase_climbing l
  show ?thesis
    by (simp add: climbing_move)
qed

text \<open>
  C2: in every reachable state the life is between 0 and 100, and it is 0 exactly when the
  phase is GAME_OVER. The same holds for the state at the end of any tick taken from a
  reachable state: a tick that ends with life 0 ends in phase GAME_OVER, and a tick that
  ends in phase GAME_OVER ends with life 0.
\<close>

theorem C2_life_and_game_over:
  assumes "reachable w"
  shows "0 \<le> life w \<and> life w \<le> 100 \<and> (life w = 0 \<longleftrightarrow> phase_of w = GAME_OVER) \<and>
     0 \<le> life (fst (updateGame dt keys rnd w)) \<and>
     life (fst (updateGame dt keys rnd w)) \<le> 100 \<and>
     (life (fst (updateGame dt keys rnd w)) = 0 \<longleftrightarrow> phase_of (fst (updateGame dt keys rnd w)) = GAME_OVER)"
proof -
  from assms have "life_inv w"
    by (rule life_inv_reachable)
  moreover from this have "life_inv (fst (updateGame dt keys rnd w))"
    by (rule life_inv_tick)
  ultimately show ?thesis
    by (simp add: life_inv_def)
qed

theorem C2_life_and_game_over_witness:
  "reachable lastLife \<and> phase_of lastLife = RUNNING \<and> life lastLife = 10 \<and>
   0 \<le> life lastLife \<and>
   life (fst (updateGame 5001 noKeys noSpawn lastLife)) = 0 \<and>
   phase_of (fst (updateGame 5001 noKeys noSpawn lastLife)) = GAME_OVER"
proof -
  note t = C2_life_and_game_over [OF reachable_lastLife, of "5001" noKeys noSpawn]
  from t have 1: "0 \<le> life lastLife"
    by (rule conjunct1)
  from t have 2: "life (fst (updateGame 5001 noKeys noSpawn lastLife)) = 0 \<longleftrightarrow>
      phase_of (fst (updateGame 5001 noKeys noSpawn lastLife)) = GAME_OVER"
    by (elim conjE)
  have 3: "life (fst (updateGame 5001 noKeys noSpawn lastLife)) = 0"
    unfolding lastLife_tick by simp
  from 2 3 have 4: "phase_of (fst (updateGame 5001 noKeys noSpawn lastLife)) = GAME_OVER"
    by (rule iffD1)
  have 5: "life lastLife = 10"
    by (simp add: lastLife_eq)
  from reachable_lastLife phase_lastLife 5 1 3 4 show ?thesis
    by (intro conjI) assumption+
qed

text \<open>
  C3: the wall collision step always leaves the player offset in \<open>[-1.8, 1.8]\<close>, whatever
  offset the movement step produced; so the offset is in \<open>[-1.8, 1.8]\<close> at the end of every
  RUNNING tick, in every reachable state and at the end of every tick taken from a
  reachable state.
\<close>

theorem C3_offset_within_walls:
  "- 1.8 \<le> playerY (fst (wallCollision (playerMovement dt keys w))) \<and>
   playerY (fst (wallCollision (playerMovement dt keys w))) \<le> 1.8 \<and>
   (phase_of w = RUNNING \<longrightarrow>
      - 1.8 \<le> playerY (fst (updateGame dt keys rnd w)) \<and>
      playerY (fst (updateGame dt keys rnd w)) \<le> 1.8) \<and>
   (reachable w \<longrightarrow>
      - 1.8 \<le> playerY w \<and> playerY w \<le> 1.8 \<and>
      - 1.8 \<le> playerY (fst (updateGame dt keys rnd w)) \<and>
      playerY (fst (updateGame dt keys rnd w)) \<le> 1.8)"
proof -
  have 1: "- 1.8 \<le> playerY (fst (wallCollision (playerMovement dt keys w))) \<and>
      playerY (fst (wallCollision (playerMovement dt keys w))) \<le> 1.8"
    using playerY_afterWall [of dt keys w] by (simp add: afterWall_def)
  have 2: "phase_of w = RUNNING \<longrightarrow> offset_inv (fst (updateGame dt keys rnd w))"
    by (simp add: offset_inv_tick)
  have 3: "reachable w \<longrightarrow> offset_inv w \<and> offset_inv (fst (updateGame dt keys rnd w))"
    by (simp add: offset_inv_reachable offset_inv_tick)
  from 1 2 3 show ?thesis
    unfolding offset_inv_def by blast
qed

theorem C3_offset_within_walls_witness:
  "phase_of climbing = RUNNING \<and> reachable climbing \<and>
   playerY (playerMovement 166.7 holdSpace climbing) = 1.95 \<and>
   playerY (fst (wallCollision (playerMovement 166.7 holdSpace climbing))) = 1.8 \<and>
   playerY climbing = 1.55 \<and>
   playerY (fst (updateGame 166.7 holdSpace noSpawn climbing)) = 1.8 \<and>
   - 1.8 \<le> playerY (fst (updateGame 166.7 holdSpace noSpawn climbing)) \<and>
   playerY (fst (updateGame 166.7 holdSpace noSpawn climbing)) \<le> 1.8"
proof -
  have "playerY (fst (wallCollision (playerMovement 166.7 holdSpace climbing))) = 1.8"
    by (simp add: climbing_move wallCollision_hit)
  moreover have "playerY climbing = 1.55"
    by (simp add: climbing_eq)
  moreover have "playerY (fst (updateGame 166.7 holdSpace noSpawn climbing)) = 1.8"
    by (simp add: climbing_tick)
  ultimately show ?thesis
    using C3_offset_within_walls [of "166.7" holdSpace climbing noSpawn]
      reachable_climbing phase_climbing
    by (simp add: climbing_move)
qed

text \<open>
  C4: right after \<^verbatim>\<open>// Update score\<close> the score is the floor of 10 times the camera's
  forward coordinate; at the end of a RUNNING tick the camera has advanced by
  \<open>speed * (deltaTime / 16.67)\<close> and the score is still the floor of 10 times its forward
  coordinate; and the same equation holds in every reachable state and at the end of
  every tick taken from one.
\<close>

theorem C4_score_follows_camera:
  "score (updateScore (updateCameraPosition dt w)) =
     \<lfloor>cameraPos2 (updateScore (updateCameraPosition dt w)) * 10\<rfloor> \<and>
   (phase_of w = RUNNING \<longrightarrow>
      cameraPos2 (fst (updateGame dt keys rnd w)) = cameraPos2 w + speed w * (dt / 16.67) \<and>
      score (fst (updateGame dt keys rnd w)) = \<lfloor>cameraPos2 (fst (updateGame dt keys rnd w)) * 10\<rfloor>) \<and>
   (reachable w \<longrightarrow>
      score w = \<lfloor>cameraPos2 w * 10\<rfloor> \<and>
      score (fst (updateGame dt keys rnd w)) = \<lfloor>cameraPos2 (fst (updateGame dt keys rnd w)) * 10\<rfloor>)"
proof -
  have 1: "score (updateScore (updateCameraPosition dt w)) =
      \<lfloor>cameraPos2 (updateScore (updateCameraPosition dt w)) * 10\<rfloor>"
    by (simp add: updateScore_def)
  have 2: "phase_of w = RUNNING \<longrightarrow>
      cameraPos2 (fst (updateGame dt keys rnd w)) = cameraPos2 w + speed w * (dt / 16.67)"
    by (simp add: tick_fields(5))
  have 3: "phase_of w = RUNNING \<longrightarrow> score_inv (fst (updateGame dt keys rnd w))"
    by (simp add: score_inv_tick)
  have 4: "reachable w \<longrightarrow> score_inv w \<and> score_inv (fst (updateGame dt keys rnd w))"
    by (simp add: score_inv_reachable score_inv_tick)
  from 1 2 3 4 show ?thesis
    unfolding score_inv_def by blast
qed

theorem C4_score_follows_camera_witness:
  "phase_of climbing = RUNNING \<and> reachable climbing \<and>
   cameraPos2 climbing = 0.8625125 \<and> score climbing = 8 \<and>
   cameraPos2 (fst (updateGame 166.7 holdSpace noSpawn climbing)) = 1.1291925 \<and>
   score (fst (updateGame 166.7 holdSpace noSpawn climbing)) = 11 \<and>
   score (fst (updateGame 166.7 holdSpace noSpawn climbing)) =
     \<lfloor>cameraPos2 (fst (updateGame 166.7 holdSpace noSpawn climbing)) * 10\<rfloor>"
proof -
  have "cameraPos2 climbing = 0.8625125" "score climbing = 8"
    by (simp_all add: climbing_eq)
  moreover have "cameraPos2 (fst (updateGame 166.7 holdSpace noSpawn climbing)) = 1.1291925"
    "score (fst (updateGame 166.7 holdSpace noSpawn climbing)) = 11"
    by (simp_all add: climbing_tick)
  ultimately show ?thesis
    using C4_score_follows_camera [of "166.7" climbing holdSpace noSpawn]
      reachable_climbing phase_climbing
    by simp
qed

text \<open>
  C5: what the obstacle loop does when an obstacle is removed. The state \<open>crowded\<close> is
  reachable and holds two obstacles. In a frame of 9385.21 ms the camera passes the first
  one by more than 5 units, and the player ends within the collision distance 0.5 of the
  second one. The first obstacle is removed at index 0; the second one moves down to
  index 0, and index 1, the next one that \<^verbatim>\<open>forEach\<close> visits, is no longer in the array.
  So the second obstacle is not visited in this tick: it is still in the array with its
  rotation angles unchanged (a visit would have added 9.008 to each), the life has only
  lost the 10 points of the wall collision, and no obstacle sound is played. Calling the
  callback on it in the resulting state does register the hit: the life drops to 60 and
  the array is empty.
\<close>

theorem C5_second_obstacle_skipped:
  "reachable crowded \<and> phase_of crowded = RUNNING \<and> life crowded = 90 \<and>
   obstacles crowded = [obstacleA, obstacleB] \<and>
   playerY (fst (updateGame 9385.21 noKeys noSpawn crowded)) = - 1.8 \<and>
   cameraPos2 (fst (updateGame 9385.21 noKeys noSpawn crowded)) = 45.5794921 \<and>
   obz obstacleA < 45.5794921 - 5 \<and>
   sqrt ((obx obstacleB - 0) * (obx obstacleB - 0) +
         (oby obstacleB - (- 1.8)) * (oby obstacleB - (- 1.8)) +
         (obz obstacleB - (45.5794921 + 0.5)) * (obz obstacleB - (45.5794921 + 0.5))) < 0.5 \<and>
   rotationSpeedX obstacleB * (9385.21 / 16.67) = 9.008 \<and>
   obstacles (fst (updateGame 9385.21 noKeys noSpawn crowded)) = [obstacleB] \<and>
   life (fst (updateGame 9385.21 noKeys noSpawn crowded)) = 80 \<and>
   snd (updateGame 9385.21 noKeys noSpawn crowded) =
     [ShowDamageFlash, PlayCollisionSound Wall, UpdateUI 80 455] \<and>
   life (fst (callback 9385.21 0 (fst (updateGame 9385.21 noKeys noSpawn crowded), []))) = 60 \<and>
   obstacles (fst (callback 9385.21 0 (fst (updateGame 9385.21 noKeys noSpawn crowded), []))) = []"
proof -
  have 1: "phase_of crowded = RUNNING" "life crowded = 90"
    by (simp_all add: crowded_eq phase_of_def)
  have 2: "playerY (fst (updateGame 9385.21 noKeys noSpawn crowded)) = - 1.8"
    "cameraPos2 (fst (updateGame 9385.21 noKeys noSpawn crowded)) = 45.5794921"
    "life (fst (updateGame 9385.21 noKeys noSpawn crowded)) = 80"
    "snd (updateGame 9385.21 noKeys noSpawn crowded) =
       [ShowDamageFlash, PlayCollisionSound Wall, UpdateUI 80 455]"
    unfolding crowded_tick by simp_all
  have 3: "obstacles (fst (updateGame 9385.21 noKeys noSpawn crowded)) = [obstacleB]"
    unfolding crowded_tick by (simp add: obstacleB_def)
  have 4: "obz obstacleA < 45.5794921 - 5"
    by (simp add: obstacleA_def)
  have 5: "sqrt ((obx obstacleB - 0) * (obx obstacleB - 0) +
         (oby obstacleB - (- 1.8)) * (oby obstacleB - (- 1.8)) +
         (obz obstacleB - (45.5794921 + 0.5)) * (obz obstacleB - (45.5794921 + 0.5))) < 0.5"
    by (simp only: sqrt_less_half) (simp add: obstacleB_def)
  have 6: "rotationSpeedX obstacleB * (9385.21 / 16.67) = 9.008"
    by (simp add: obstacleB_def)
  have 7: "life (fst (callback 9385.21 0 (fst (updateGame 9385.21 noKeys noSpawn crowded), []))) = 60"
    "obstacles (fst (callback 9385.21 0 (fst (updateGame 9385.21 noKeys noSpawn crowded), []))) = []"
    unfolding crowded_tick by (simp_all add: callback_def splice_def Let_def sqrt_twice_less_one)
  from reachable_crowded 1 crowded_obstacles 2(1,2) 4 5 6 3 2(3,4) 7 show ?thesis
    by (intro conjI) assumption+
qed

text \<open>
  C6, as amended: in a RUNNING tick with some input held, a frame time that is not
  negative and a velocity of at most 0.06 before the tick (as in every reachable state),
  the velocity at the end of the tick is at most 0.06; it is not below the velocity before
  the tick unless the integrated offset is above the upper wall; when the integrated
  offset is within the walls it is the accelerated velocity clamped to \<open>[-0.06, 0.06]\<close>;
  when the player hits the upper wall it is \<open>-0.06\<close>, and when the player hits the lower
  wall it is \<open>0.06\<close>.

  The claim as stated fails on the reachable run that follows the theorem and its witness:
  the space bar is held for two frames in a row; the velocity is 0.03 after the first
  frame, below the limit 0.06, and \<open>-0.06\<close> after the second one, in which the player hits
  the upper wall.
\<close>

theorem C6_thrust_velocity:
  assumes "phase_of w = RUNNING" and "thrust keys" and "0 \<le> dt"
    and "reachable w \<or> playerVelocity w \<le> 0.06"
  shows "playerVelocity (fst (updateGame dt keys rnd w)) \<le> 0.06 \<and>
     (playerY (playerMovement dt keys w) \<le> 1.8 \<longrightarrow>
        playerVelocity w \<le> playerVelocity (fst (updateGame dt keys rnd w))) \<and>
     (\<bar>playerY (playerMovement dt keys w)\<bar> \<le> 1.8 \<longrightarrow>
        playerVelocity (fst (updateGame dt keys rnd w)) =
          max (- 0.06) (min 0.06 (playerVelocity w + 0.002 * (dt / 16.67)))) \<and>
     (1.8 < playerY (playerMovement dt keys w) \<longrightarrow>
        playerVelocity (fst (updateGame dt keys rnd w)) = - 0.06) \<and>
     (playerY (playerMovement dt keys w) < - 1.8 \<longrightarrow>
        playerVelocity (fst (updateGame dt keys rnd w)) = 0.06)"
proof -
  let ?m = "playerMovement dt keys w"
  let ?v' = "playerVelocity (fst (updateGame dt keys rnd w))"
  have v': "?v' = playerVelocity (afterWall dt keys w)"
    by (rule tick_fields(2) [OF assms(1)])
  from assms(4) have v: "playerVelocity w \<le> 0.06"
    using velocity_inv_reachable [of w] by (auto simp: velocity_inv_def)
  have vm: "playerVelocity ?m = max (- 0.06) (min 0.06 (playerVelocity w + 0.002 * (dt / 16.67)))"
    using assms(2) by (subst playerMovement_eq) simp
  from assms(3) have "0 \<le> 0.002 * (dt / 16.67)"
    by simp
  with v have mono: "playerVelocity w \<le> max (- 0.06) (min 0.06 (playerVelocity w + 0.002 * (dt / 16.67)))"
    by (simp add: max_def min_def)
  have 1: "?v' \<le> 0.06"
    using velocity_afterWall [of dt keys w] by (simp add: v' velocity_inv_def)
  have 3: "?v' = max (- 0.06) (min 0.06 (playerVelocity w + 0.002 * (dt / 16.67)))"
    if "\<bar>playerY ?m\<bar> \<le> 1.8"
    using that by (simp add: v' afterWall_miss vm)
  have 4: "?v' = - 0.06" if "1.8 < playerY ?m"
  proof -
    from that have "1.8 < \<bar>playerY ?m\<bar>" by simp
    with that show ?thesis by (simp add: v' afterWall_hit)
  qed
  have 5: "?v' = 0.06" if "playerY ?m < - 1.8"
  proof -
    from that have "1.8 < \<bar>playerY ?m\<bar>" by simp
    with that show ?thesis by (simp add: v' afterWall_hit)
  qed
  have 2: "playerVelocity w \<le> ?v'" if le: "playerY ?m \<le> 1.8"
  proof (cases "playerY ?m < - 1.8")
    case True
    with 5 v show ?thesis by simp
  next
    case False
    with le have "\<bar>playerY ?m\<bar> \<le> 1.8" by simp
    with 3 mono show ?thesis by simp
  qed
  from 1 2 3 4 5 show ?thesis
    by (intro conjI impI) assumption+
qed

theorem C6_thrust_velocity_witness:
  "phase_of started = RUNNING \<and> thrust holdSpace \<and> (0::real) \<le> 16.67 \<and> reachable started \<and>
   \<bar>playerY (playerMovement 16.67 holdSpace started)\<bar> \<le> 1.8 \<and>
   playerVelocity started = 0 \<and>
   playerVelocity (fst (updateGame 16.67 holdSpace noSpawn started)) = 0.002 \<and>
   playerVelocity started \<le> playerVelocity (fst (updateGame 16.67 holdSpace noSpawn started)) \<and>
   playerVelocity (fst (updateGame 16.67 holdSpace noSpawn started)) \<le> 0.06"
proof -
  have d: "(0::real) \<le> 16.67"
    by simp
  have m: "\<bar>playerY (playerMovement 16.67 holdSpace started)\<bar> \<le> 1.8"
    unfolding started_move by simp
  then have m': "playerY (playerMovement 16.67 holdSpace started) \<le> 1.8"
    by simp
  note t = C6_thrust_velocity [OF phase_started thrust_holdSpace d disjI1 [OF reachable_started], of noSpawn]
  from t have 1: "playerVelocity (fst (updateGame 16.67 holdSpace noSpawn started)) \<le> 0.06"
    by (rule conjunct1)
  from t m' have 2: "playerVelocity started \<le> playerVelocity (fst (updateGame 16.67 holdSpace noSpawn started))"
    by blast
  have 3: "playerVelocity started = 0"
    by (simp add: started_eq initial_def)
  have 4: "playerVelocity (fst (updateGame 16.67 holdSpace noSpawn started)) = 0.002"
    unfolding started_tick by simp
  from phase_started thrust_holdSpace d reachable_started m 3 4 2 1 show ?thesis
    by (intro conjI) assumption+
qed

theorem C6_velocity_drops_under_thrust:
  "reachable climbing \<and> phase_of climbing = RUNNING \<and> thrust holdSpace \<and>
   climbing2 = fst (updateGame 83.35 holdSpace noSpawn climbing) \<and>
   phase_of climbing2 = RUNNING \<and>
   playerVelocity climbing = 0.02 \<and>
   playerVelocity climbing2 = 0.03 \<and>
   playerVelocity climbing2 < 0.06 \<and>
   playerVelocity (fst (updateGame 83.35 holdSpace noSpawn climbing2)) = - 0.06 \<and>
   playerVelocity (fst (updateGame 83.35 holdSpace noSpawn climbing2)) < playerVelocity climbing2"
proof -
  have 1: "climbing2 = fst (updateGame 83.35 holdSpace noSpawn climbing)"
    unfolding climbing2_def run_def by simp
  have 2: "phase_of climbing2 = RUNNING"
    by (simp add: climbing2_eq phase_of_def)
  have 3: "playerVelocity climbing = 0.02"
    by (simp add: climbing_eq)
  have 4: "playerVelocity climbing2 = 0.03" "playerVelocity climbing2 < 0.06"
    by (simp_all add: climbing2_eq)
  have 5: "playerVelocity (fst (updateGame 83.35 holdSpace noSpawn climbing2)) = - 0.06"
    unfolding climbing2_tick by simp
  have 6: "playerVelocity (fst (updateGame 83.35 holdSpace noSpawn climbing2)) < playerVelocity climbing2"
    unfolding climbing2_tick by (simp add: climbing2_eq)
  from reachable_climbing phase_climbing thrust_holdSpace 1 2 3 4 5 6 show ?thesis
    by (intro conjI) assumption+
qed

text \<open>
  C7: while the phase is TITLE or GAME_OVER a tick leaves every variable of the simulation
  as it is (life, score, speed, player offset and velocity, camera, elapsed time,
  obstacles and the two phase flags), and none of the steps of a running tick is taken:
  the only call it makes is the one that shows the title screen, in phase TITLE.
\<close>

theorem C7_idle_tick_is_noop:
  assumes "phase_of w = TITLE \<or> phase_of w = GAME_OVER"
  shows "fst (updateGame dt keys rnd w) = w \<and>
         snd (updateGame dt keys rnd w) = (if phase_of w = TITLE then [ShowTitleScreen] else [])"
proof -
  from assms have "phase_of w \<noteq> RUNNING" by auto
  then have "updateGame dt keys rnd w = (w, if showTitle w then [ShowTitleScreen] else [])"
    by (rule updateGame_not_running)
  moreover have "showTitle w \<longleftrightarrow> phase_of w = TITLE"
    by (simp add: phase_of_def)
  ultimately show ?thesis by simp
qed

theorem C7_idle_tick_witness:
  "phase_of initial = TITLE \<and>
   fst (updateGame 16.67 holdSpace noSpawn initial) = initial \<and>
   snd (updateGame 16.67 holdSpace noSpawn initial) = [ShowTitleScreen] \<and>
   phase_of (initial\<lparr>life := 0, showTitle := False\<rparr>) = GAME_OVER \<and>
   fst (updateGame 16.67 holdSpace noSpawn (initial\<lparr>life := 0, showTitle := False\<rparr>)) =
     initial\<lparr>life := 0, showTitle := False\<rparr> \<and>
   snd (updateGame 16.67 holdSpace noSpawn (initial\<lparr>life := 0, showTitle := False\<rparr>)) = []"
proof -
  have t: "phase_of initial = TITLE"
    by (simp add: phase_of_def initial_def)
  have g: "phase_of (initial\<lparr>life := 0, showTitle := False\<rparr>) = GAME_OVER"
    by (simp add: phase_of_def initial_def)
  from t g
    C7_idle_tick_is_noop [of initial "16.67" holdSpace noSpawn]
    C7_idle_tick_is_noop [of "initial\<lparr>life := 0, showTitle := False\<rparr>" "16.67" holdSpace noSpawn]
  show ?thesis by simp
qed

text \<open>
  C8: from any state, \<^verbatim>\<open>restartGame\<close> sets every variable of the simulation to its
  initial value (life 100, score 0, speed 0.02, player offset and velocity 0, camera at
  the origin, elapsed time 0, no obstacles) and the phase to TITLE; so a second restart
  gives the same state and the same calls as the first.
\<close>

theorem C8_restart_resets:
  "fst (restartGame w) =
     \<lparr> life = 100, score = 0, speed = 0.02, playerY = 0, playerVelocity = 0,
       gameRunning = False, showTitle = True, time = 0,
       cameraPos0 = 0, cameraPos1 = 0, cameraPos2 = 0, obstacles = [] \<rparr> \<and>
   fst (restartGame w) = initial \<and>
   phase_of (fst (restartGame w)) = TITLE \<and>
   restartGame (fst (restartGame w)) = restartGame w"
  by (simp add: restartGame_def initial_def phase_of_def)

text \<open>
  C9: the life at the end of a RUNNING tick is the life before it after one loss of 10,
  floored at 0, if the player hit a wall, and then some number of losses of 20, each
  floored at 0, at most one for every obstacle in the array (the one spawned in this tick
  included); and from a reachable state no tick, in any phase, ends with more life than
  it started with.
\<close>

theorem C9_life_only_decreases:
  "(phase_of w = RUNNING \<longrightarrow>
      (\<exists>n. n \<le> length (obstacles w) + 1 \<and>
         life (fst (updateGame dt keys rnd w)) =
           (damage 20 ^^ n)
             (if 1.8 < \<bar>playerY (playerMovement dt keys w)\<bar> then damage 10 (life w) else life w))) \<and>
   (reachable w \<longrightarrow> life (fst (updateGame dt keys rnd w)) \<le> life w)"
proof -
  have 1: "\<exists>n. n \<le> length (obstacles w) + 1 \<and>
         life (fst (updateGame dt keys rnd w)) =
           (damage 20 ^^ n)
             (if 1.8 < \<bar>playerY (playerMovement dt keys w)\<bar> then damage 10 (life w) else life w)"
    if run: "phase_of w = RUNNING"
  proof -
    let ?b = "beforeObstacles dt keys rnd w"
    have "life (fst (updateGame dt keys rnd w)) = life (fst (updateObstacles dt ?b))"
      by (simp only: updateGame_running [OF run] Let_def fst_conv checkGameOver_fst) simp
    moreover obtain n where n: "n \<le> length (obstacles (fst ?b))"
        "life (fst (updateObstacles dt ?b)) = (damage 20 ^^ n) (life (fst ?b))"
      using updateObstacles_life by blast
    moreover have "life (fst ?b) = life (afterWall dt keys w)"
      by (subst beforeObstacles_fst) simp
    moreover have "life (afterWall dt keys w) =
        (if 1.8 < \<bar>playerY (playerMovement dt keys w)\<bar> then damage 10 (life w) else life w)"
    proof (cases "1.8 < \<bar>playerY (playerMovement dt keys w)\<bar>")
      case True
      then show ?thesis by (simp add: afterWall_hit damage_def)
    next
      case False
      then show ?thesis by (simp add: afterWall_miss playerMovement_eq)
    qed
    moreover have "length (obstacles (fst ?b)) \<le> length (obstacles w) + 1"
      by (rule beforeObstacles_length)
    ultimately have "n \<le> length (obstacles w) + 1 \<and>
         life (fst (updateGame dt keys rnd w)) =
           (damage 20 ^^ n)
             (if 1.8 < \<bar>playerY (playerMovement dt keys w)\<bar> then damage 10 (life w) else life w)"
      by simp
    then show ?thesis by blast
  qed
  have 2: "life (fst (updateGame dt keys rnd w)) \<le> life w" if r: "reachable w"
  proof (cases "phase_of w = RUNNING")
    case True
    from r have "0 \<le> life w"
      using life_inv_reachable by (simp add: life_inv_def)
    with True show ?thesis
      by (simp add: tick_life_bounds)
  next
    case False
    then show ?thesis by (simp add: updateGame_not_running)
  qed
  from 1 2 show ?thesis by blast
qed

theorem C9_life_only_decreases_witness:
  "phase_of climbing = RUNNING \<and> reachable climbing \<and>
   1.8 < \<bar>playerY (playerMovement 166.7 holdSpace climbing)\<bar> \<and>
   life climbing = 100 \<and>
   damage 10 (life climbing) = 90 \<and>
   life (fst (updateGame 166.7 holdSpace noSpawn climbing)) = 90 \<and>
   life (fst (updateGame 166.7 holdSpace noSpawn climbing)) \<le> life climbing"
proof -
  have 1: "1.8 < \<bar>playerY (playerMovement 166.7 holdSpace climbing)\<bar>"
    unfolding climbing_move by simp
  have 2: "life climbing = 100" "damage 10 (life climbing) = 90"
    by (simp_all add: climbing_eq damage_def)
  have 3: "life (fst (updateGame 166.7 holdSpace noSpawn climbing)) = 90"
    unfolding climbing_tick by simp
  from C9_life_only_decreases [of climbing "166.7" holdSpace noSpawn] reachable_climbing
  have 4: "life (fst (updateGame 166.7 holdSpace noSpawn climbing)) \<le> life climbing"
    by blast
  from phase_climbing reachable_climbing 1 2 3 4 show ?thesis
    by (intro conjI) assumption+
qed



end
